theory Spec2Isabelle
  imports Main "HOL-Library.Word"
begin

section \<open>The canvas platform: pixels, bitmaps, paths\<close>

text \<open>
  The drawing surface of \<^verbatim>\<open>Canvas.tsx\<close> is an HTML canvas element. The part of the
  browser's canvas interface that the component calls is modelled here: a bitmap of RGBA
  pixels with 8-bit channels, the current path of a 2D context, and source-over
  compositing. What the standard leaves to the browser (the rasterizer of a stroke, the
  rounding of a blend, the largest bitmap it backs, the text of an exception) is a field
  of the record \<open>browser\<close>, a parameter of the model. Everything below this section is a
  translation of the component's own code.
\<close>

record pixel =
  red :: "8 word"
  green :: "8 word"
  blue :: "8 word"
  alpha :: "8 word"

definition rgba :: "8 word \<Rightarrow> 8 word \<Rightarrow> 8 word \<Rightarrow> 8 word \<Rightarrow> pixel" where
  "rgba r g b a = \<lparr>red = r, green = g, blue = b, alpha = a\<rparr>"

definition transparent :: pixel where
  "transparent = rgba 0 0 0 0"

text \<open>The colours the source names: \<^verbatim>\<open>'#FFFFFF'\<close>, \<^verbatim>\<open>'#E5E7EB'\<close> (gray-200),
  \<^verbatim>\<open>'#1F2937'\<close> (gray-800), and the context's default stroke colour, black.\<close>

definition white :: pixel where
  "white = rgba 255 255 255 255"

definition gray_200 :: pixel where
  "gray_200 = rgba 229 231 235 255"

definition gray_800 :: pixel where
  "gray_800 = rgba 31 41 55 255"

definition black :: pixel where
  "black = rgba 0 0 0 255"

text \<open>Source-over compositing of a source pixel onto a destination pixel. A fully
  transparent source leaves the destination, a fully opaque source replaces it, and
  compositing onto an opaque destination gives an opaque pixel. The colour of any other
  blend, rounding included, is the browser's: the parameter \<open>blend\<close>.\<close>

type_synonym blender = "pixel \<Rightarrow> pixel \<Rightarrow> pixel"

definition source_over :: "blender \<Rightarrow> pixel \<Rightarrow> pixel \<Rightarrow> pixel" where
  "source_over blend src dst =
     (if alpha src = 0 then dst
      else if alpha src = 255 then src
      else (blend src dst)\<lparr>alpha := (if alpha dst = 255 then 255 else alpha (blend src dst))\<rparr>)"

type_synonym raster = "nat \<times> nat \<Rightarrow> pixel"

record canvas_el =
  width :: nat
  height :: nat
  bitmap :: raster

definition in_bounds :: "canvas_el \<Rightarrow> nat \<times> nat \<Rightarrow> bool" where
  "in_bounds c p \<longleftrightarrow> fst p < width c \<and> snd p < height c"

definition blank :: "canvas_el \<Rightarrow> bool" where
  "blank c \<longleftrightarrow> (\<forall>p. in_bounds c p \<longrightarrow> bitmap c p = transparent)"

text \<open>\<^verbatim>\<open>document.createElement('canvas')\<close>: 300 by 150, fully transparent.\<close>

definition createElement_canvas :: canvas_el where
  "createElement_canvas = \<lparr>width = 300, height = 150, bitmap = (\<lambda>p. transparent)\<rparr>"

text \<open>\<^verbatim>\<open>clearRect\<close> and \<^verbatim>\<open>fillRect\<close> on a pixel-aligned rectangle under the identity
  transform (the component never changes the transform).\<close>

definition in_rect :: "nat \<Rightarrow> nat \<Rightarrow> nat \<Rightarrow> nat \<Rightarrow> nat \<times> nat \<Rightarrow> bool" where
  "in_rect x y w h p \<longleftrightarrow> x \<le> fst p \<and> fst p < x + w \<and> y \<le> snd p \<and> snd p < y + h"

definition clearRect :: "nat \<Rightarrow> nat \<Rightarrow> nat \<Rightarrow> nat \<Rightarrow> canvas_el \<Rightarrow> canvas_el" where
  "clearRect x y w h c =
     c\<lparr>bitmap := (\<lambda>p. if in_bounds c p \<and> in_rect x y w h p then transparent else bitmap c p)\<rparr>"

definition fillRect ::
  "blender \<Rightarrow> pixel \<Rightarrow> nat \<Rightarrow> nat \<Rightarrow> nat \<Rightarrow> nat \<Rightarrow> canvas_el \<Rightarrow> canvas_el" where
  "fillRect blend fillStyle x y w h c =
     c\<lparr>bitmap := (\<lambda>p. if in_bounds c p \<and> in_rect x y w h p
                       then source_over blend fillStyle (bitmap c p) else bitmap c p)\<rparr>"

datatype js_error = TypeError | InvalidStateError

text \<open>\<^verbatim>\<open>dst.drawImage(src, 0, 0)\<close>: the source bitmap, unscaled, composited onto the
  destination at the origin. A source canvas of width or height 0 makes it throw.\<close>

definition drawImage :: "blender \<Rightarrow> canvas_el \<Rightarrow> canvas_el \<Rightarrow> js_error + canvas_el" where
  "drawImage blend src dst =
     (if width src = 0 \<or> height src = 0 then Inl InvalidStateError
      else Inr (dst\<lparr>bitmap := (\<lambda>p. if in_bounds dst p \<and> in_bounds src p
                                    then source_over blend (bitmap src p) (bitmap dst p)
                                    else bitmap dst p)\<rparr>))"

text \<open>\<^verbatim>\<open>toDataURL('image/png')\<close>: a lossless encoding, so the data URL of an image is
  modelled by the image it decodes to: its dimensions and its pixels. For a bitmap of no
  pixels, and for one larger than the browser backs (\<open>allocates\<close>), the result is the
  string \<^verbatim>\<open>data:,\<close>.\<close>

datatype data_url = EmptyDataUrl | PngDataUrl nat nat raster

definition toDataURL :: "(nat \<Rightarrow> nat \<Rightarrow> bool) \<Rightarrow> canvas_el \<Rightarrow> data_url" where
  "toDataURL allocates c =
     (if width c = 0 \<or> height c = 0 \<or> \<not> allocates (width c) (height c) then EmptyDataUrl
      else PngDataUrl (width c) (height c) (bitmap c))"

text \<open>The \<^verbatim>\<open>width\<close> and \<^verbatim>\<open>height\<close> of a canvas are unsigned long attributes: the value
  assigned is taken modulo \<open>2 ^ 32\<close>, and one above \<open>2 ^ 31 - 1\<close> gives the attribute's
  default instead.\<close>

definition unsigned_long_attribute :: "nat \<Rightarrow> nat \<Rightarrow> nat" where
  "unsigned_long_attribute fallback v =
     (let u = v mod 2 ^ 32 in if u \<le> 2147483647 then u else fallback)"

subsection \<open>The 2D context: drawing state and current path\<close>

datatype line_cap = Butt | Round | Square

datatype line_join = MiterJoin | RoundJoin | BevelJoin

text \<open>Coordinates are JavaScript numbers. The component only subtracts them, so the model
  is parametric in the number type \<open>'n\<close>. A subpath is its points and its closed flag.\<close>

type_synonym 'n subpath = "('n \<times> 'n) list \<times> bool"

record 'n context2d =
  lineCap :: line_cap
  lineJoin :: line_join
  strokeStyle :: pixel
  lineWidth :: nat
  path :: "'n subpath list"

definition default_context :: "'n context2d" where
  "default_context =
     \<lparr>lineCap = Butt, lineJoin = MiterJoin, strokeStyle = black, lineWidth = 1, path = []\<rparr>"

definition beginPath :: "'n context2d \<Rightarrow> 'n context2d" where
  "beginPath cx = cx\<lparr>path := []\<rparr>"

definition moveTo :: "'n \<times> 'n \<Rightarrow> 'n context2d \<Rightarrow> 'n context2d" where
  "moveTo p cx = cx\<lparr>path := path cx @ [([p], False)]\<rparr>"

text \<open>\<^verbatim>\<open>lineTo\<close> on a path without subpaths only starts one at the point.\<close>

definition lineTo :: "'n \<times> 'n \<Rightarrow> 'n context2d \<Rightarrow> 'n context2d" where
  "lineTo p cx =
     (case rev (path cx) of
        [] \<Rightarrow> cx\<lparr>path := [([p], False)]\<rparr>
      | (pts, closed) # before \<Rightarrow> cx\<lparr>path := rev before @ [(pts @ [p], closed)]\<rparr>)"

text \<open>\<^verbatim>\<open>closePath\<close> does nothing without subpaths; otherwise it marks the last subpath
  closed and starts a new one at that subpath's first point.\<close>

definition closePath :: "'n context2d \<Rightarrow> 'n context2d" where
  "closePath cx =
     (case rev (path cx) of
        [] \<Rightarrow> cx
      | (pts, closed) # before \<Rightarrow>
          cx\<lparr>path := rev before @ [(pts, True)] @ (case pts of [] \<Rightarrow> [] | p # _ \<Rightarrow> [([p], False)])\<rparr>)"

subsection \<open>What the browser decides\<close>

text \<open>\<open>strokeImpl\<close> is the rasterizer behind \<^verbatim>\<open>stroke()\<close>: from the drawing state, with
  its path, and the canvas it gives the bitmap after the stroke. \<open>exceptionMessage\<close> is the
  \<^verbatim>\<open>message\<close> of a thrown exception, or \<open>None\<close> where the thrown value is no instance
  of \<^verbatim>\<open>Error\<close>.\<close>

type_synonym 'n rasterizer = "'n context2d \<Rightarrow> canvas_el \<Rightarrow> raster"

record 'n browser =
  strokeImpl :: "'n rasterizer"
  blend :: blender
  allocates :: "nat \<Rightarrow> nat \<Rightarrow> bool"
  exceptionMessage :: "js_error \<Rightarrow> string option"

section \<open>The Canvas component\<close>

text \<open>
  The component's state: the two refs and the two React state variables. The 2D context
  belongs to the canvas element of \<open>canvasRef\<close>; its drawing state is kept where the
  component keeps its reference to it, in \<open>contextRef\<close>. Each handler below runs in its
  own event dispatch, with the state updates of the previous one rendered.
\<close>

record 'n canvas_state =
  canvasRef :: "canvas_el option"
  contextRef :: "'n context2d option"
  isDrawing :: bool
  isDirty :: bool

definition initial_state :: "canvas_el option \<Rightarrow> 'n canvas_state" where
  "initial_state el = \<lparr>canvasRef = el, contextRef = None, isDrawing = False, isDirty = False\<rparr>"

text \<open>Assigning \<^verbatim>\<open>canvas.width\<close> or \<^verbatim>\<open>canvas.height\<close> clears the bitmap and resets the
  element's context, if it has one, to its default state. The defaults of the two
  attributes are 300 and 150.\<close>

definition set_width :: "nat \<Rightarrow> 'n canvas_state \<Rightarrow> 'n canvas_state" where
  "set_width w s =
     s\<lparr>canvasRef := map_option (\<lambda>c. \<lparr>width = unsigned_long_attribute 300 w, height = height c,
                                    bitmap = (\<lambda>p. transparent)\<rparr>)
                      (canvasRef s),
       contextRef := map_option (\<lambda>cx. default_context) (contextRef s)\<rparr>"

definition set_height :: "nat \<Rightarrow> 'n canvas_state \<Rightarrow> 'n canvas_state" where
  "set_height h s =
     s\<lparr>canvasRef := map_option (\<lambda>c. \<lparr>width = width c, height = unsigned_long_attribute 150 h,
                                    bitmap = (\<lambda>p. transparent)\<rparr>)
                      (canvasRef s),
       contextRef := map_option (\<lambda>cx. default_context) (contextRef s)\<rparr>"

text \<open>\<open>setupContext\<close>. \<open>got\<close> says whether \<^verbatim>\<open>canvas.getContext('2d')\<close> returned a context,
  \<open>dark\<close> whether the document element has the class \<^verbatim>\<open>dark\<close>.\<close>

definition setupContext :: "bool \<Rightarrow> bool \<Rightarrow> 'n canvas_state \<Rightarrow> 'n canvas_state" where
  "setupContext got dark s =
     (if got then
        let context = (case contextRef s of None \<Rightarrow> default_context | Some cx \<Rightarrow> cx)
        in s\<lparr>contextRef := Some (context\<lparr>lineCap := Round, lineJoin := RoundJoin,
                                          strokeStyle := (if dark then gray_200 else gray_800),
                                          lineWidth := 4\<rparr>)\<rparr>
      else s)"

text \<open>The callback of the \<^verbatim>\<open>ResizeObserver\<close>: one resize and one \<open>setupContext\<close> per
  entry. An entry is the integer part of the width and of the height of the content box,
  which is what the assignment to an unsigned long attribute keeps of them.\<close>

fun resizeObserver_callback ::
  "(nat \<times> nat) list \<Rightarrow> bool \<Rightarrow> bool \<Rightarrow> 'n canvas_state \<Rightarrow> 'n canvas_state" where
  "resizeObserver_callback [] got dark s = s"
| "resizeObserver_callback ((w, h) # entries) got dark s =
     resizeObserver_callback entries got dark (setupContext got dark (set_height h (set_width w s)))"

text \<open>The body of the mount effect: nothing without the canvas or its parent element;
  otherwise the observer is registered and \<open>setupContext\<close> runs once.\<close>

definition useEffect_mount :: "bool \<Rightarrow> bool \<Rightarrow> bool \<Rightarrow> 'n canvas_state \<Rightarrow> 'n canvas_state" where
  "useEffect_mount hasParent got dark s =
     (case canvasRef s of
        None \<Rightarrow> s
      | Some canvas \<Rightarrow> if \<not> hasParent then s else setupContext got dark s)"

subsection \<open>Pointer input\<close>

datatype 'n pointer_event =
    MouseEvent 'n 'n
  | TouchEvent "('n \<times> 'n) list"

text \<open>\<open>getCoords\<close>. \<open>rect\<close> is the \<open>(left, top)\<close> of \<^verbatim>\<open>canvas.getBoundingClientRect()\<close>.
  Reading \<^verbatim>\<open>touches[0].clientX\<close> of an empty touch list throws.\<close>

definition getCoords ::
  "canvas_el option \<Rightarrow> 'n \<times> 'n \<Rightarrow> 'n pointer_event \<Rightarrow> js_error + ('n::{zero,minus} \<times> 'n)" where
  "getCoords canvas rect event =
     (case canvas of
        None \<Rightarrow> Inr (0, 0)
      | Some c \<Rightarrow>
          (case event of
             TouchEvent touches \<Rightarrow>
               (case touches of
                  [] \<Rightarrow> Inl TypeError
                | t # others \<Rightarrow> Inr (fst t - fst rect, snd t - snd rect))
           | MouseEvent clientX clientY \<Rightarrow> Inr (clientX - fst rect, clientY - snd rect)))"

definition startDrawing ::
  "'n \<times> 'n \<Rightarrow> 'n pointer_event \<Rightarrow> 'n canvas_state \<Rightarrow> js_error + ('n::{zero,minus}) canvas_state" where
  "startDrawing rect event s =
     (case contextRef s of
        None \<Rightarrow> Inr s
      | Some context \<Rightarrow>
          (case getCoords (canvasRef s) rect event of
             Inl e \<Rightarrow> Inl e
           | Inr xy \<Rightarrow>
               Inr (s\<lparr>contextRef := Some (moveTo xy (beginPath context)),
                      isDrawing := True,
                      isDirty := (if \<not> isDirty s then True else isDirty s)\<rparr>)))"

text \<open>\<^verbatim>\<open>stroke()\<close> paints the current path into the bitmap of the context's canvas,
  with the browser's rasterizer, clipped to the bitmap.\<close>

definition stroke :: "'n browser \<Rightarrow> 'n canvas_state \<Rightarrow> 'n canvas_state" where
  "stroke browser s =
     (case (canvasRef s, contextRef s) of
        (Some c, Some cx) \<Rightarrow>
          s\<lparr>canvasRef := Some (c\<lparr>bitmap := (\<lambda>p. if in_bounds c p then strokeImpl browser cx c p
                                                 else bitmap c p)\<rparr>)\<rparr>
      | _ \<Rightarrow> s)"

definition draw ::
  "'n browser \<Rightarrow> 'n \<times> 'n \<Rightarrow> 'n pointer_event \<Rightarrow> 'n canvas_state
     \<Rightarrow> js_error + ('n::{zero,minus}) canvas_state" where
  "draw browser rect event s =
     (if \<not> isDrawing s \<or> contextRef s = None then Inr s
      else
        (case getCoords (canvasRef s) rect event of
           Inl e \<Rightarrow> Inl e
         | Inr xy \<Rightarrow> Inr (stroke browser (s\<lparr>contextRef := map_option (lineTo xy) (contextRef s)\<rparr>))))"

definition stopDrawing :: "'n canvas_state \<Rightarrow> 'n canvas_state" where
  "stopDrawing s =
     (case contextRef s of
        Some cx \<Rightarrow> s\<lparr>contextRef := Some (closePath cx)\<rparr>
      | None \<Rightarrow> s)\<lparr>isDrawing := False\<rparr>"

subsection \<open>The imperative handle\<close>

definition clearCanvas :: "'n canvas_state \<Rightarrow> 'n canvas_state" where
  "clearCanvas s =
     (case (canvasRef s, contextRef s) of
        (Some canvas, Some context) \<Rightarrow>
          s\<lparr>canvasRef := Some (clearRect 0 0 (width canvas) (height canvas) canvas),
            isDirty := False\<rparr>
      | _ \<Rightarrow> s)"

text \<open>\<open>getImageData\<close> returns its result, or the exception it throws, and the component
  state it leaves. \<open>tempOk\<close> says whether \<^verbatim>\<open>tempCanvas.getContext('2d')\<close> returned a
  context.\<close>

definition getImageData ::
  "'n browser \<Rightarrow> bool \<Rightarrow> 'n canvas_state \<Rightarrow> (js_error + data_url option) \<times> 'n canvas_state" where
  "getImageData browser tempOk s =
     (case canvasRef s of
        None \<Rightarrow> (Inr None, s)
      | Some canvas \<Rightarrow>
          if \<not> isDirty s then (Inr None, s)
          else
            let tempCanvas = createElement_canvas;
                tempCanvas = \<lparr>width = unsigned_long_attribute 300 (width canvas),
                              height = height tempCanvas, bitmap = (\<lambda>p. transparent)\<rparr>;
                tempCanvas = \<lparr>width = width tempCanvas,
                              height = unsigned_long_attribute 150 (height canvas),
                              bitmap = (\<lambda>p. transparent)\<rparr>
            in if tempOk then
                 let fillStyle = white;
                     tempCanvas = fillRect (blend browser) fillStyle 0 0 (width tempCanvas)
                                    (height tempCanvas) tempCanvas
                 in (case drawImage (blend browser) canvas tempCanvas of
                       Inl e \<Rightarrow> (Inl e, s)
                     | Inr tempCanvas \<Rightarrow> (Inr (Some (toDataURL (allocates browser) tempCanvas)), s))
               else (Inr (Some (toDataURL (allocates browser) canvas)), s))"

subsection \<open>The events the component reacts to\<close>

text \<open>
  The JSX binds \<open>startDrawing\<close> to \<^verbatim>\<open>onMouseDown\<close> and \<^verbatim>\<open>onTouchStart\<close>, \<open>draw\<close> to
  \<^verbatim>\<open>onMouseMove\<close> and \<^verbatim>\<open>onTouchMove\<close>, and \<open>stopDrawing\<close> to \<^verbatim>\<open>onMouseUp\<close>,
  \<^verbatim>\<open>onMouseLeave\<close> and \<^verbatim>\<open>onTouchEnd\<close>. The other events are the mount effect, a
  notification of the resize observer, and the two calls through the handle. The effect
  registers the observer only when the canvas is there, and the callback acts on that
  canvas, so a notification without a canvas does not occur.
\<close>

datatype 'n dom_event =
    Mounted bool bool bool
  | Resized "(nat \<times> nat) list" bool bool
  | MouseDown "'n \<times> 'n" "'n pointer_event"
  | MouseMove "'n \<times> 'n" "'n pointer_event"
  | MouseUp
  | MouseLeave
  | TouchStart "'n \<times> 'n" "'n pointer_event"
  | TouchMove "'n \<times> 'n" "'n pointer_event"
  | TouchEnd
  | ClearCanvasCall
  | GetImageDataCall bool

text \<open>A handler that throws has made no state update before the throw.\<close>

definition settle :: "js_error + 's \<Rightarrow> 's \<Rightarrow> 's" where
  "settle r s = (case r of Inl e \<Rightarrow> s | Inr s' \<Rightarrow> s')"

fun dispatch :: "'n browser \<Rightarrow> 'n dom_event \<Rightarrow> 'n canvas_state \<Rightarrow> ('n::{zero,minus}) canvas_state" where
  "dispatch browser (Mounted hasParent got dark) s = useEffect_mount hasParent got dark s"
| "dispatch browser (Resized entries got dark) s =
     (case canvasRef s of None \<Rightarrow> s | Some c \<Rightarrow> resizeObserver_callback entries got dark s)"
| "dispatch browser (MouseDown rect e) s = settle (startDrawing rect e s) s"
| "dispatch browser (MouseMove rect e) s = settle (draw browser rect e s) s"
| "dispatch browser MouseUp s = stopDrawing s"
| "dispatch browser MouseLeave s = stopDrawing s"
| "dispatch browser (TouchStart rect e) s = settle (startDrawing rect e s) s"
| "dispatch browser (TouchMove rect e) s = settle (draw browser rect e s) s"
| "dispatch browser TouchEnd s = stopDrawing s"
| "dispatch browser ClearCanvasCall s = clearCanvas s"
| "dispatch browser (GetImageDataCall tempOk) s = snd (getImageData browser tempOk s)"

fun run :: "'n browser \<Rightarrow> 'n dom_event list \<Rightarrow> 'n canvas_state \<Rightarrow> ('n::{zero,minus}) canvas_state" where
  "run browser [] s = s"
| "run browser (e # es) s = run browser es (dispatch browser e s)"

fun is_begin :: "'n dom_event \<Rightarrow> bool" where
  "is_begin (MouseDown rect e) = True"
| "is_begin (TouchStart rect e) = True"
| "is_begin ev = False"

text \<open>The states of a component instance: it starts with no context, not drawing, not
  dirty, its canvas ref empty or holding the fresh canvas element.\<close>

inductive reachable :: "'n browser \<Rightarrow> ('n::{zero,minus}) canvas_state \<Rightarrow> bool"
  for browser :: "'n browser" where
  unattached: "reachable browser (initial_state None)"
| attached: "reachable browser (initial_state (Some createElement_canvas))"
| step: "reachable browser s \<Longrightarrow> reachable browser (dispatch browser ev s)"

section \<open>The orchestrator: \<open>handleSolve\<close>\<close>

record math_solution =
  expression :: string
  result :: string
  explanation :: string

datatype input_mode = Handwriting | Text

text \<open>A JavaScript string is a sequence of UTF-16 code units. \<^verbatim>\<open>trim()\<close> removes white
  space and line terminators from both ends.\<close>

type_synonym js_string = "nat list"

definition is_white_space :: "nat \<Rightarrow> bool" where
  "is_white_space u \<longleftrightarrow>
     u \<in> {0x9, 0xA, 0xB, 0xC, 0xD, 0x20, 0xA0, 0x1680, 0x2028, 0x2029, 0x202F, 0x205F,
          0x3000, 0xFEFF} \<or> (0x2000 \<le> u \<and> u \<le> 0x200A)"

definition js_trim :: "js_string \<Rightarrow> js_string" where
  "js_trim t = rev (dropWhile is_white_space (rev (dropWhile is_white_space t)))"

text \<open>What awaiting a call of the solver service gives: a solution, or a thrown value,
  with its message when it is an \<^verbatim>\<open>Error\<close>. The calls made are logged in \<open>solverCalls\<close>.\<close>

datatype solver_outcome = Resolved math_solution | Threw "string option"

datatype solver_request = ImageRequest data_url | TextRequest js_string

record 'n app_state =
  app_canvasRef :: "'n canvas_state option"
  solution :: "math_solution option"
  isLoading :: bool
  error :: "string option"
  inputMode :: input_mode
  textProblem :: js_string
  solverCalls :: "solver_request list"

definition settle_solve :: "solver_outcome \<Rightarrow> 'n app_state \<Rightarrow> 'n app_state" where
  "settle_solve outcome a =
     (case outcome of
        Resolved r \<Rightarrow> a\<lparr>solution := Some r, isLoading := False\<rparr>
      | Threw err \<Rightarrow>
          (let errorMessage = (case err of Some message \<Rightarrow> message
                                         | None \<Rightarrow> ''An unknown error occurred.'')
           in a\<lparr>error := Some (''Failed to solve: '' @ errorMessage), isLoading := False\<rparr>))"

text \<open>\<open>handleSolve\<close>, from its first state update to the end of its \<^verbatim>\<open>finally\<close>
  block. An exception thrown by \<open>getImageData\<close> is caught like one thrown by the
  solver.\<close>

definition handleSolve ::
  "'n browser \<Rightarrow> (data_url \<Rightarrow> solver_outcome) \<Rightarrow> (js_string \<Rightarrow> solver_outcome) \<Rightarrow> bool
     \<Rightarrow> 'n app_state \<Rightarrow> 'n app_state" where
  "handleSolve browser solveMathProblem solveMathProblemFromText tempOk a0 =
     (let a = a0\<lparr>isLoading := True, error := None, solution := None\<rparr>
      in if inputMode a = Handwriting then
           (case app_canvasRef a of
              None \<Rightarrow> a\<lparr>isLoading := False\<rparr>
            | Some cv \<Rightarrow>
                (case getImageData browser tempOk cv of
                   (Inl err, cv') \<Rightarrow>
                     settle_solve (Threw (exceptionMessage browser err)) (a\<lparr>app_canvasRef := Some cv'\<rparr>)
                 | (Inr None, cv') \<Rightarrow>
                     a\<lparr>app_canvasRef := Some cv',
                       error := Some ''The canvas is empty. Please write a math problem.'',
                       isLoading := False\<rparr>
                 | (Inr (Some imageDataUrl), cv') \<Rightarrow>
                     settle_solve (solveMathProblem imageDataUrl)
                       (a\<lparr>app_canvasRef := Some cv',
                          solverCalls := solverCalls a @ [ImageRequest imageDataUrl]\<rparr>)))
         else if js_trim (textProblem a) = [] then
           a\<lparr>error := Some ''The text input is empty. Please type a math problem.'',
             isLoading := False\<rparr>
         else
           settle_solve (solveMathProblemFromText (textProblem a))
             (a\<lparr>solverCalls := solverCalls a @ [TextRequest (textProblem a)]\<rparr>))"

section \<open>Auxiliary definitions\<close>

text \<open>The state of a component whose context is missing, as the invariant below shows:
  not drawing, not dirty, the bitmap blank.\<close>

definition idle :: "'n canvas_state \<Rightarrow> bool" where
  "idle s \<longleftrightarrow> \<not> isDrawing s \<and> \<not> isDirty s \<and> (\<forall>c. canvasRef s = Some c \<longrightarrow> blank c)"

text \<open>A canvas with pixels, of dimensions that are values of its attributes, that the
  browser backs.\<close>

definition has_bitmap :: "'n browser \<Rightarrow> canvas_el \<Rightarrow> bool" where
  "has_bitmap browser c \<longleftrightarrow>
     0 < width c \<and> width c \<le> 2147483647 \<and> 0 < height c \<and> height c \<le> 2147483647 \<and>
     allocates browser (width c) (height c)"

text \<open>What the temporary canvas of \<open>getImageData\<close> holds before encoding: the live
  bitmap composited over opaque white.\<close>

definition composite_over_white :: "blender \<Rightarrow> canvas_el \<Rightarrow> raster" where
  "composite_over_white mix c =
     (\<lambda>p. if in_bounds c p then source_over mix (bitmap c p) white else transparent)"

subsection \<open>A sample browser\<close>

text \<open>For evaluating the model on integer coordinates. The sample rasterizer paints, in
  the stroke colour and without antialiasing, each pixel whose centre lies within half
  the line width of a segment of the path: the shape a stroke with round caps and round
  joins covers. The test is on doubled coordinates, to stay in the integers. The sample
  blend is the source-over formula on non-premultiplied channels, rounded down.\<close>

definition segment_covers :: "nat \<Rightarrow> nat \<times> nat \<Rightarrow> (int \<times> int) \<times> (int \<times> int) \<Rightarrow> bool" where
  "segment_covers w p seg =
     (let x1 = 2 * fst (fst seg); y1 = 2 * snd (fst seg);
          x2 = 2 * fst (snd seg); y2 = 2 * snd (snd seg);
          px = 2 * int (fst p) + 1; py = 2 * int (snd p) + 1;
          dx = x2 - x1; dy = y2 - y1; vx = px - x1; vy = py - y1;
          dot = vx * dx + vy * dy; len2 = dx * dx + dy * dy; r2 = int w * int w
      in len2 \<noteq> 0 \<and>
         (if dot \<le> 0 then vx * vx + vy * vy \<le> r2
          else if len2 \<le> dot then (px - x2) * (px - x2) + (py - y2) * (py - y2) \<le> r2
          else (vx * vx + vy * vy - r2) * len2 \<le> dot * dot))"

fun segments :: "'a list \<Rightarrow> ('a \<times> 'a) list" where
  "segments (a # b # rest) = (a, b) # segments (b # rest)"
| "segments pts = []"

definition subpath_segments :: "int subpath \<Rightarrow> ((int \<times> int) \<times> (int \<times> int)) list" where
  "subpath_segments sub =
     segments (fst sub) @ (if snd sub \<and> fst sub \<noteq> [] then [(last (fst sub), hd (fst sub))] else [])"

definition sample_strokeImpl :: "int rasterizer" where
  "sample_strokeImpl cx c p =
     (if list_ex (\<lambda>sub. list_ex (segment_covers (lineWidth cx) p) (subpath_segments sub)) (path cx)
      then strokeStyle cx else bitmap c p)"

definition blend_channel :: "nat \<Rightarrow> nat \<Rightarrow> nat \<Rightarrow> nat \<Rightarrow> nat \<Rightarrow> nat" where
  "blend_channel sc sa dc da oa =
     (if oa = 0 then 0 else (sc * sa * 255 + dc * da * (255 - sa)) div (oa * 255))"

definition sample_blend :: blender where
  "sample_blend src dst =
     (let sa = unat (alpha src);
          da = unat (alpha dst);
          oa = sa + da * (255 - sa) div 255
      in \<lparr>red = of_nat (blend_channel (unat (red src)) sa (unat (red dst)) da oa),
          green = of_nat (blend_channel (unat (green src)) sa (unat (green dst)) da oa),
          blue = of_nat (blend_channel (unat (blue src)) sa (unat (blue dst)) da oa),
          alpha = of_nat oa\<rparr>)"

definition sample_browser :: "int browser" where
  "sample_browser =
     \<lparr>strokeImpl = sample_strokeImpl, blend = sample_blend,
      allocates = (\<lambda>w h. w \<le> 32767 \<and> h \<le> 32767),
      exceptionMessage = (\<lambda>e. Some ''The operation failed.'')\<rparr>"

subsection \<open>Sample sessions\<close>

text \<open>The sample session mounts the component, sizes the canvas to 20 by 10 and draws one
  stroke from \<open>(5, 5)\<close> to \<open>(8, 5)\<close>. The other states are stages of it, a tap on a 4 by 3
  canvas, a resize after the stroke, and a component whose canvas gave no context.\<close>

definition sample_session :: "int dom_event list" where
  "sample_session =
     [Mounted True True False, Resized [(20, 10)] True False,
      MouseDown (10, 20) (MouseEvent 15 25), MouseMove (10, 20) (MouseEvent 18 25), MouseUp]"

definition fresh_state :: "int canvas_state" where
  "fresh_state = initial_state (Some createElement_canvas)"

definition sized_state :: "int canvas_state" where
  "sized_state =
     run sample_browser [Mounted True True False, Resized [(4, 3)] True False] fresh_state"

definition sized_canvas :: canvas_el where
  "sized_canvas = \<lparr>width = 4, height = 3, bitmap = (\<lambda>p. transparent)\<rparr>"

definition tapped_state :: "int canvas_state" where
  "tapped_state =
     run sample_browser [MouseDown (10, 20) (MouseEvent 11 21), MouseUp] sized_state"

definition drawing_state :: "int canvas_state" where
  "drawing_state = run sample_browser (butlast sample_session) fresh_state"

definition inked_state :: "int canvas_state" where
  "inked_state = run sample_browser sample_session fresh_state"

definition surface_canvas :: canvas_el where
  "surface_canvas = \<lparr>width = 20, height = 10, bitmap = (\<lambda>p. transparent)\<rparr>"

definition drawing_context :: "int context2d" where
  "drawing_context =
     \<lparr>lineCap = Round, lineJoin = RoundJoin, strokeStyle = gray_800, lineWidth = 4,
      path = [([(5, 5), (8, 5)], False)]\<rparr>"

definition inked_context :: "int context2d" where
  "inked_context =
     \<lparr>lineCap = Round, lineJoin = RoundJoin, strokeStyle = gray_800, lineWidth = 4,
      path = [([(5, 5), (8, 5)], True), ([(5, 5)], False)]\<rparr>"

definition inked_canvas :: canvas_el where
  "inked_canvas =
     \<lparr>width = 20, height = 10,
      bitmap = (\<lambda>p. if in_bounds surface_canvas p
                     then sample_strokeImpl drawing_context surface_canvas p else transparent)\<rparr>"

definition resized_state :: "int canvas_state" where
  "resized_state = dispatch sample_browser (Resized [(5, 3)] True False) inked_state"

definition resized_canvas :: canvas_el where
  "resized_canvas = \<lparr>width = 5, height = 3, bitmap = (\<lambda>p. transparent)\<rparr>"

definition no_context_state :: "int canvas_state" where
  "no_context_state =
     run sample_browser [Mounted True False False, Resized [(4, 3)] False False] fresh_state"

definition idle_session :: "int dom_event list" where
  "idle_session =
     [Mounted True True False, Resized [(4, 3)] True False,
      MouseMove (10, 20) (MouseEvent 11 21), MouseLeave, ClearCanvasCall]"

definition sample_app :: "int app_state" where
  "sample_app =
     \<lparr>app_canvasRef = Some fresh_state, solution = None, isLoading = False, error = None,
      inputMode = Handwriting, textProblem = [], solverCalls = []\<rparr>"

definition failing_solver :: "'a \<Rightarrow> solver_outcome" where
  "failing_solver x = Threw None"

section \<open>Lemmas about the model\<close>

subsection \<open>Compositing onto white\<close>

lemma alpha_source_over_white: "alpha (source_over mix src white) = 255"
  by (simp add: source_over_def white_def rgba_def)

lemma source_over_clear_white: "alpha src = 0 \<Longrightarrow> source_over mix src white = white"
  by (simp add: source_over_def)

lemma source_over_opaque: "alpha src = 255 \<Longrightarrow> source_over mix src dst = src"
  by (simp add: source_over_def)

lemma source_over_white: "source_over mix white dst = white"
  by (simp add: source_over_def white_def rgba_def)

subsection \<open>The result of \<open>getImageData\<close>\<close>

lemma unsigned_long_attribute_id: "v \<le> 2147483647 \<Longrightarrow> unsigned_long_attribute d v = v"
  by (simp add: unsigned_long_attribute_def)

lemma getImageData_state: "snd (getImageData browser tempOk s) = s"
  by (simp add: getImageData_def Let_def split: option.splits sum.splits)

lemma getImageData_clean: "\<not> isDirty s \<Longrightarrow> fst (getImageData browser tempOk s) = Inr None"
  by (simp add: getImageData_def split: option.splits)

lemma getImageData_composited:
  assumes "isDirty s" and "canvasRef s = Some c" and "has_bitmap browser c"
  shows "fst (getImageData browser True s) =
           Inr (Some (PngDataUrl (width c) (height c) (composite_over_white (blend browser) c)))"
proof -
  have w: "unsigned_long_attribute 300 (width c) = width c"
    and h: "unsigned_long_attribute 150 (height c) = height c"
    using assms(3) by (simp_all add: has_bitmap_def unsigned_long_attribute_id)
  show ?thesis
    using assms
    by (auto simp: getImageData_def Let_def w h drawImage_def fillRect_def toDataURL_def
        in_bounds_def in_rect_def createElement_canvas_def has_bitmap_def
        composite_over_white_def source_over_white cong: if_cong)
qed

lemma getImageData_fallback:
  assumes "isDirty s" and "canvasRef s = Some c" and "has_bitmap browser c"
  shows "fst (getImageData browser False s) = Inr (Some (PngDataUrl (width c) (height c) (bitmap c)))"
  using assms by (simp add: getImageData_def Let_def toDataURL_def has_bitmap_def)

text \<open>The exception of \<open>drawImage\<close> reaches the caller of \<open>getImageData\<close>.\<close>

lemma getImageData_no_pixels:
  assumes "isDirty s" and "canvasRef s = Some c" and "width c = 0 \<or> height c = 0"
  shows "fst (getImageData browser True s) = Inl InvalidStateError"
  using assms by (auto simp: getImageData_def Let_def drawImage_def)

text \<open>In \<open>handleSolve\<close> that exception is caught: the error banner is set, and the
  solver is not called.\<close>

lemma handleSolve_export_throws:
  assumes "inputMode a = Handwriting" and "app_canvasRef a = Some cv"
    and "fst (getImageData browser tempOk cv) = Inl err"
  shows "error (handleSolve browser solveMathProblem solveMathProblemFromText tempOk a) =
           Some (''Failed to solve: '' @
                 (case exceptionMessage browser err of
                    Some message \<Rightarrow> message | None \<Rightarrow> ''An unknown error occurred.'')) \<and>
         solverCalls (handleSolve browser solveMathProblem solveMathProblemFromText tempOk a) =
           solverCalls a \<and>
         \<not> isLoading (handleSolve browser solveMathProblem solveMathProblemFromText tempOk a)"
proof -
  obtain cv' where "getImageData browser tempOk cv = (Inl err, cv')"
    using assms(3) by (cases "getImageData browser tempOk cv") simp
  with assms(1,2) show ?thesis
    by (simp add: handleSolve_def settle_solve_def Let_def)
qed

subsection \<open>What each operation leaves alone\<close>

lemma setupContext_fields:
  "canvasRef (setupContext got dark s) = canvasRef s"
  "isDrawing (setupContext got dark s) = isDrawing s"
  "isDirty (setupContext got dark s) = isDirty s"
  "contextRef (setupContext got dark s) = None \<longleftrightarrow> \<not> got \<and> contextRef s = None"
  by (simp_all add: setupContext_def Let_def)

lemma set_width_fields:
  "isDrawing (set_width w s) = isDrawing s"
  "isDirty (set_width w s) = isDirty s"
  "contextRef (set_width w s) = None \<longleftrightarrow> contextRef s = None"
  "canvasRef (set_width w s) = None \<longleftrightarrow> canvasRef s = None"
  by (simp_all add: set_width_def)

lemma set_height_fields:
  "isDrawing (set_height h s) = isDrawing s"
  "isDirty (set_height h s) = isDirty s"
  "contextRef (set_height h s) = None \<longleftrightarrow> contextRef s = None"
  "canvasRef (set_height h s) = None \<longleftrightarrow> canvasRef s = None"
  by (simp_all add: set_height_def)

lemma set_height_blank: "canvasRef (set_height h s) = Some c \<Longrightarrow> blank c"
  by (auto simp: set_height_def blank_def)

lemma resize_flags:
  "isDrawing (resizeObserver_callback entries got dark s) = isDrawing s \<and>
   isDirty (resizeObserver_callback entries got dark s) = isDirty s"
  by (induction entries got dark s rule: resizeObserver_callback.induct)
     (simp_all add: setupContext_fields set_width_fields set_height_fields)

lemma resize_context_None:
  "contextRef (resizeObserver_callback entries got dark s) = None \<Longrightarrow> contextRef s = None"
  by (induction entries got dark s rule: resizeObserver_callback.induct)
     (simp_all add: setupContext_fields set_width_fields set_height_fields)

lemma resize_canvas_None:
  "canvasRef (resizeObserver_callback entries got dark s) = None \<longleftrightarrow> canvasRef s = None"
  by (induction entries got dark s rule: resizeObserver_callback.induct)
     (simp_all add: setupContext_fields set_width_fields set_height_fields)

lemma resize_blank:
  "canvasRef (resizeObserver_callback entries got dark s) = Some c \<Longrightarrow>
   (\<forall>c0. canvasRef s = Some c0 \<longrightarrow> blank c0) \<Longrightarrow> blank c"
proof (induction entries got dark s rule: resizeObserver_callback.induct)
  case (1 got dark s)
  then show ?case by simp
next
  case (2 w h entries got dark s)
  show ?case
  proof (rule "2.IH")
    show "canvasRef (resizeObserver_callback entries got dark
            (setupContext got dark (set_height h (set_width w s)))) = Some c"
      using "2.prems"(1) by simp
    show "\<forall>c0. canvasRef (setupContext got dark (set_height h (set_width w s))) = Some c0 \<longrightarrow> blank c0"
      by (simp add: setupContext_fields set_height_blank)
  qed
qed

lemma resize_nonempty_blank:
  "entries \<noteq> [] \<Longrightarrow> canvasRef (resizeObserver_callback entries got dark s) = Some c \<Longrightarrow> blank c"
proof (cases entries)
  case Nil
  assume "entries \<noteq> []"
  with Nil show ?thesis by simp
next
  case (Cons wh rest)
  assume c: "canvasRef (resizeObserver_callback entries got dark s) = Some c"
  obtain w h where wh: "wh = (w, h)" by (cases wh)
  show ?thesis
  proof (rule resize_blank)
    show "canvasRef (resizeObserver_callback rest got dark
            (setupContext got dark (set_height h (set_width w s)))) = Some c"
      using c Cons wh by simp
    show "\<forall>c0. canvasRef (setupContext got dark (set_height h (set_width w s))) = Some c0 \<longrightarrow> blank c0"
      by (simp add: setupContext_fields set_height_blank)
  qed
qed

lemma startDrawing_no_context: "contextRef s = None \<Longrightarrow> startDrawing rect e s = Inr s"
  by (simp add: startDrawing_def)

lemma draw_no_context: "contextRef s = None \<Longrightarrow> draw browser rect e s = Inr s"
  by (simp add: draw_def)

lemma clearCanvas_no_context: "contextRef s = None \<Longrightarrow> clearCanvas s = s"
  by (simp add: clearCanvas_def split: option.splits)

lemma stopDrawing_no_context: "contextRef s = None \<Longrightarrow> \<not> isDrawing s \<Longrightarrow> stopDrawing s = s"
  by (simp add: stopDrawing_def)

lemma stroke_context: "contextRef (stroke browser s) = contextRef s"
  by (simp add: stroke_def split: option.splits)

lemma stroke_isDirty: "isDirty (stroke browser s) = isDirty s"
  by (simp add: stroke_def split: option.splits)

lemma stroke_canvas_None: "canvasRef (stroke browser s) = None \<longleftrightarrow> canvasRef s = None"
  by (simp add: stroke_def split: option.splits)

lemma closePath_closes:
  "path cx = before @ [(pts, closed)] \<Longrightarrow>
   path (closePath cx) = before @ [(pts, True)] @ (case pts of [] \<Rightarrow> [] | p # _ \<Rightarrow> [([p], False)])"
  by (simp add: closePath_def)

lemma clearRect_all_blank: "blank (clearRect 0 0 (width c) (height c) c)"
  by (simp add: blank_def clearRect_def in_bounds_def in_rect_def)

lemma clearRect_all_twice:
  "clearRect 0 0 (width (clearRect 0 0 (width c) (height c) c)) (height (clearRect 0 0 (width c) (height c) c))
     (clearRect 0 0 (width c) (height c) c) = clearRect 0 0 (width c) (height c) c"
  by (simp add: clearRect_def in_bounds_def in_rect_def cong: if_cong)

lemma clearRect_blank_id: "blank c \<Longrightarrow> clearRect 0 0 (width c) (height c) c = c"
proof -
  assume b: "blank c"
  have "(\<lambda>p. if in_bounds c p \<and> in_rect 0 0 (width c) (height c) p then transparent else bitmap c p)
          = bitmap c"
    using b by (auto simp: blank_def)
  then show ?thesis by (simp add: clearRect_def)
qed

lemma clearCanvas_idem: "clearCanvas (clearCanvas s) = clearCanvas s"
  by (cases "canvasRef s"; cases "contextRef s") (simp_all add: clearCanvas_def clearRect_all_twice)

subsection \<open>Invariants of the reachable states\<close>

text \<open>A context, once obtained, stays; without one the component is idle; and a context
  is only ever obtained for a canvas that is there.\<close>

lemma dispatch_context_None:
  "contextRef (dispatch browser ev s) = None \<Longrightarrow> contextRef s = None"
proof (cases ev)
  case (Mounted hasParent got dark)
  assume "contextRef (dispatch browser ev s) = None"
  with Mounted show ?thesis
    by (simp add: useEffect_mount_def setupContext_fields split: option.splits if_splits)
next
  case (Resized entries got dark)
  assume "contextRef (dispatch browser ev s) = None"
  with Resized show ?thesis
    by (auto split: option.splits dest: resize_context_None)
next
  case (MouseDown rect e)
  assume "contextRef (dispatch browser ev s) = None"
  with MouseDown show ?thesis
    by (auto simp: settle_def startDrawing_def split: option.splits sum.splits)
next
  case (MouseMove rect e)
  assume "contextRef (dispatch browser ev s) = None"
  with MouseMove show ?thesis
    by (auto simp: settle_def draw_def stroke_context split: option.splits sum.splits if_splits)
next
  case (TouchStart rect e)
  assume "contextRef (dispatch browser ev s) = None"
  with TouchStart show ?thesis
    by (auto simp: settle_def startDrawing_def split: option.splits sum.splits)
next
  case (TouchMove rect e)
  assume "contextRef (dispatch browser ev s) = None"
  with TouchMove show ?thesis
    by (auto simp: settle_def draw_def stroke_context split: option.splits sum.splits if_splits)
next
  case ClearCanvasCall
  assume "contextRef (dispatch browser ev s) = None"
  with ClearCanvasCall show ?thesis
    by (auto simp: clearCanvas_def split: option.splits)
next
  case (GetImageDataCall tempOk)
  assume "contextRef (dispatch browser ev s) = None"
  with GetImageDataCall show ?thesis by (simp add: getImageData_state)
qed (auto simp: stopDrawing_def split: option.splits)

lemma dispatch_idle:
  assumes "contextRef (dispatch browser ev s) = None" and "idle s"
  shows "idle (dispatch browser ev s)"
proof -
  have none: "contextRef s = None"
    using assms(1) by (rule dispatch_context_None)
  show ?thesis
  proof (cases ev)
    case (Mounted hasParent got dark)
    with assms show ?thesis
      by (auto simp: idle_def useEffect_mount_def setupContext_fields split: option.splits)
  next
    case (Resized entries got dark)
    with assms show ?thesis
      by (auto simp: idle_def resize_flags split: option.splits dest: resize_blank)
  next
    case (MouseDown rect e)
    with assms none show ?thesis by (simp add: settle_def startDrawing_no_context)
  next
    case (MouseMove rect e)
    with assms none show ?thesis by (simp add: settle_def draw_no_context)
  next
    case (TouchStart rect e)
    with assms none show ?thesis by (simp add: settle_def startDrawing_no_context)
  next
    case (TouchMove rect e)
    with assms none show ?thesis by (simp add: settle_def draw_no_context)
  next
    case ClearCanvasCall
    with assms none show ?thesis by (simp add: clearCanvas_no_context)
  next
    case (GetImageDataCall tempOk)
    with assms show ?thesis by (simp add: getImageData_state)
  next
    case MouseUp
    with assms none show ?thesis by (simp add: idle_def stopDrawing_no_context)
  next
    case MouseLeave
    with assms none show ?thesis by (simp add: idle_def stopDrawing_no_context)
  next
    case TouchEnd
    with assms none show ?thesis by (simp add: idle_def stopDrawing_no_context)
  qed
qed

lemma reachable_idle: "reachable browser s \<Longrightarrow> contextRef s = None \<Longrightarrow> idle s"
proof (induction rule: reachable.induct)
  case unattached
  show ?case by (simp add: idle_def initial_state_def)
next
  case attached
  show ?case by (simp add: idle_def initial_state_def blank_def createElement_canvas_def)
next
  case (step s ev)
  have "contextRef s = None"
    using step.prems by (rule dispatch_context_None)
  then have "idle s" by (rule step.IH)
  with step.prems show ?case by (rule dispatch_idle)
qed

lemma dispatch_detached:
  "canvasRef s = None \<Longrightarrow> contextRef s = None \<Longrightarrow>
   canvasRef (dispatch browser ev s) = None \<and> contextRef (dispatch browser ev s) = None"
  by (cases ev)
     (simp_all add: useEffect_mount_def settle_def startDrawing_no_context draw_no_context
        clearCanvas_no_context getImageData_state stopDrawing_def)

lemma dispatch_canvas_None:
  "canvasRef (dispatch browser ev s) = None \<Longrightarrow> canvasRef s = None"
proof (cases ev)
  case (Mounted hasParent got dark)
  assume "canvasRef (dispatch browser ev s) = None"
  with Mounted show ?thesis
    by (simp add: useEffect_mount_def setupContext_fields split: option.splits if_splits)
next
  case (Resized entries got dark)
  assume "canvasRef (dispatch browser ev s) = None"
  with Resized show ?thesis
    by (simp add: resize_canvas_None split: option.splits)
next
  case (MouseDown rect e)
  assume "canvasRef (dispatch browser ev s) = None"
  with MouseDown show ?thesis
    by (auto simp: settle_def startDrawing_def split: option.splits sum.splits)
next
  case (MouseMove rect e)
  assume "canvasRef (dispatch browser ev s) = None"
  with MouseMove show ?thesis
    by (auto simp: settle_def draw_def stroke_canvas_None split: option.splits sum.splits if_splits)
next
  case (TouchStart rect e)
  assume "canvasRef (dispatch browser ev s) = None"
  with TouchStart show ?thesis
    by (auto simp: settle_def startDrawing_def split: option.splits sum.splits)
next
  case (TouchMove rect e)
  assume "canvasRef (dispatch browser ev s) = None"
  with TouchMove show ?thesis
    by (auto simp: settle_def draw_def stroke_canvas_None split: option.splits sum.splits if_splits)
next
  case ClearCanvasCall
  assume "canvasRef (dispatch browser ev s) = None"
  with ClearCanvasCall show ?thesis
    by (auto simp: clearCanvas_def split: option.splits)
next
  case (GetImageDataCall tempOk)
  assume "canvasRef (dispatch browser ev s) = None"
  with GetImageDataCall show ?thesis by (simp add: getImageData_state)
qed (auto simp: stopDrawing_def split: option.splits)

lemma reachable_detached:
  "reachable browser s \<Longrightarrow> canvasRef s = None \<Longrightarrow> contextRef s = None"
proof (induction rule: reachable.induct)
  case unattached
  show ?case by (simp add: initial_state_def)
next
  case attached
  show ?case by (simp add: initial_state_def)
next
  case (step s ev)
  have c: "canvasRef s = None"
    using step.prems by (rule dispatch_canvas_None)
  then have "contextRef s = None" by (rule step.IH)
  with c show ?case by (simp add: dispatch_detached)
qed

lemma dispatch_isDirty:
  "isDirty (dispatch browser ev s) \<Longrightarrow> isDirty s \<or> is_begin ev"
proof (cases ev)
  case (Mounted hasParent got dark)
  assume "isDirty (dispatch browser ev s)"
  with Mounted show ?thesis
    by (simp add: useEffect_mount_def setupContext_fields split: option.splits if_splits)
next
  case (Resized entries got dark)
  assume "isDirty (dispatch browser ev s)"
  with Resized show ?thesis
    by (simp add: resize_flags split: option.splits)
next
  case (MouseMove rect e)
  assume "isDirty (dispatch browser ev s)"
  with MouseMove show ?thesis
    by (auto simp: settle_def draw_def stroke_isDirty split: sum.splits if_splits)
next
  case (TouchMove rect e)
  assume "isDirty (dispatch browser ev s)"
  with TouchMove show ?thesis
    by (auto simp: settle_def draw_def stroke_isDirty split: sum.splits if_splits)
next
  case ClearCanvasCall
  assume "isDirty (dispatch browser ev s)"
  with ClearCanvasCall show ?thesis
    by (auto simp: clearCanvas_def split: option.splits)
next
  case (GetImageDataCall tempOk)
  assume "isDirty (dispatch browser ev s)"
  with GetImageDataCall show ?thesis by (simp add: getImageData_state)
qed (auto simp: stopDrawing_def split: option.splits)

lemma run_isDirty:
  "\<forall>ev \<in> set evs. \<not> is_begin ev \<Longrightarrow> \<not> isDirty s \<Longrightarrow> \<not> isDirty (run browser evs s)"
proof (induction evs arbitrary: s)
  case Nil
  then show ?case by simp
next
  case (Cons ev evs)
  have "\<not> isDirty (dispatch browser ev s)"
    using Cons.prems dispatch_isDirty [of browser ev s] by auto
  with Cons show ?case by simp
qed

subsection \<open>The concrete sessions, evaluated\<close>

lemmas model_defs = initial_state_def createElement_canvas_def useEffect_mount_def setupContext_def
  set_width_def set_height_def settle_def startDrawing_def draw_def stopDrawing_def stroke_def
  getCoords_def beginPath_def moveTo_def lineTo_def closePath_def default_context_def
  clearCanvas_def clearRect_def in_bounds_def in_rect_def unsigned_long_attribute_def
  sample_browser_def Let_def

lemma sized_state_eq:
  "sized_state =
     \<lparr>canvasRef = Some sized_canvas,
      contextRef = Some \<lparr>lineCap = Round, lineJoin = RoundJoin, strokeStyle = gray_800,
          lineWidth = 4, path = []\<rparr>,
      isDrawing = False, isDirty = False\<rparr>"
  by (simp add: sized_state_def sized_canvas_def fresh_state_def model_defs)

lemma drawing_state_eq:
  "drawing_state =
     \<lparr>canvasRef = Some inked_canvas, contextRef = Some drawing_context,
      isDrawing = True, isDirty = True\<rparr>"
  by (simp add: drawing_state_def sample_session_def fresh_state_def model_defs inked_canvas_def
      drawing_context_def surface_canvas_def cong: if_cong)

lemma inked_state_eq:
  "inked_state =
     \<lparr>canvasRef = Some inked_canvas, contextRef = Some inked_context,
      isDrawing = False, isDirty = True\<rparr>"
  by (simp add: inked_state_def sample_session_def fresh_state_def model_defs inked_canvas_def
      drawing_context_def inked_context_def surface_canvas_def cong: if_cong)

lemma inked_canvas_pixels:
  "width inked_canvas = 20" "height inked_canvas = 10"
  "bitmap inked_canvas (6, 5) = gray_800" "bitmap inked_canvas (15, 8) = transparent"
  by (simp_all add: inked_canvas_def surface_canvas_def drawing_context_def in_bounds_def
      sample_strokeImpl_def subpath_segments_def segment_covers_def Let_def)

lemma sample_browser_has_bitmap:
  "has_bitmap sample_browser inked_canvas" "has_bitmap sample_browser sized_canvas"
  "has_bitmap sample_browser resized_canvas"
  by (simp_all add: has_bitmap_def sample_browser_def inked_canvas_def sized_canvas_def
      resized_canvas_def)

lemma inked_state_canvas: "isDirty inked_state \<and> canvasRef inked_state = Some inked_canvas"
  by (simp add: inked_state_eq)

lemma tapped_state_canvas: "isDirty tapped_state \<and> canvasRef tapped_state = Some sized_canvas"
  by (simp add: tapped_state_def sized_state_eq settle_def startDrawing_def stopDrawing_def
      getCoords_def)

lemma resized_state_canvas: "isDirty resized_state \<and> canvasRef resized_state = Some resized_canvas"
  by (simp add: resized_state_def inked_state_eq resized_canvas_def set_width_def set_height_def
      setupContext_def unsigned_long_attribute_def)

section \<open>The claims\<close>

text \<open>
  Claim C1. In every state in which \<open>isDirty\<close> is false, \<open>getImageData\<close> returns
  \<^verbatim>\<open>null\<close> (the model's \<open>Inr None\<close>), not an error and not an image, and leaves the state
  as it is. In particular it does so in the initial state of the component, and after any
  sequence of events that contains no begin event (no mouse-down and no touch-start).
\<close>

theorem C1_getImageData_null_without_ink:
  fixes s :: "('n::{zero,minus}) canvas_state" and browser :: "'n browser"
  shows "(\<not> isDirty s \<longrightarrow> getImageData browser tempOk s = (Inr None, s)) \<and>
         getImageData browser tempOk (initial_state el :: 'n canvas_state) = (Inr None, initial_state el) \<and>
         ((\<forall>ev \<in> set evs. \<not> is_begin ev) \<longrightarrow>
            fst (getImageData browser tempOk (run browser evs (initial_state el))) = Inr None)"
proof (intro conjI impI)
  assume "\<not> isDirty s"
  then show "getImageData browser tempOk s = (Inr None, s)"
    by (simp add: getImageData_def split: option.splits)
next
  show "getImageData browser tempOk (initial_state el :: 'n canvas_state) = (Inr None, initial_state el)"
    by (simp add: getImageData_def initial_state_def split: option.splits)
next
  assume "\<forall>ev \<in> set evs. \<not> is_begin ev"
  then have "\<not> isDirty (run browser evs (initial_state el))"
    by (rule run_isDirty) (simp add: initial_state_def)
  then show "fst (getImageData browser tempOk (run browser evs (initial_state el))) = Inr None"
    by (rule getImageData_clean)
qed

theorem C1_witness:
  "\<not> isDirty fresh_state \<and> getImageData sample_browser True fresh_state = (Inr None, fresh_state) \<and>
   \<not> list_ex is_begin idle_session \<and>
   fst (getImageData sample_browser True
         (run sample_browser idle_session (initial_state (Some createElement_canvas)))) = Inr None"
  using C1_getImageData_null_without_ink [where s = fresh_state and tempOk = True
      and el = "Some createElement_canvas" and evs = idle_session and browser = sample_browser]
  by (simp add: fresh_state_def initial_state_def idle_session_def)

text \<open>
  Claim C2, amended. In every state with \<open>isDirty\<close> true whose canvas has a bitmap
  (width and height positive, and of a size the browser backs), \<open>getImageData\<close> returns
  a non-null image whose dimensions are those of the live canvas. When the temporary
  canvas gives a 2D context, the image is the live bitmap drawn unscaled at the origin over
  an opaque white fill: every pixel within the bounds is the live pixel composited over
  white and is opaque, every pixel the live bitmap leaves fully transparent is opaque
  white, and every opaque pixel of the live bitmap is kept. When the temporary canvas gives
  no context, the source's fallback branch encodes the live canvas itself, transparent
  background included.
\<close>

theorem C2_snapshot_white_backed:
  assumes "isDirty s" and "canvasRef s = Some c" and "has_bitmap browser c"
  shows "fst (getImageData browser True s) =
           Inr (Some (PngDataUrl (width c) (height c) (composite_over_white (blend browser) c))) \<and>
         (\<forall>p. in_bounds c p \<longrightarrow>
              composite_over_white (blend browser) c p = source_over (blend browser) (bitmap c p) white \<and>
              alpha (composite_over_white (blend browser) c p) = 255 \<and>
              (alpha (bitmap c p) = 0 \<longrightarrow> composite_over_white (blend browser) c p = white) \<and>
              (alpha (bitmap c p) = 255 \<longrightarrow> composite_over_white (blend browser) c p = bitmap c p)) \<and>
         fst (getImageData browser False s) = Inr (Some (PngDataUrl (width c) (height c) (bitmap c)))"
proof -
  have px: "\<forall>p. in_bounds c p \<longrightarrow>
              composite_over_white (blend browser) c p = source_over (blend browser) (bitmap c p) white \<and>
              alpha (composite_over_white (blend browser) c p) = 255 \<and>
              (alpha (bitmap c p) = 0 \<longrightarrow> composite_over_white (blend browser) c p = white) \<and>
              (alpha (bitmap c p) = 255 \<longrightarrow> composite_over_white (blend browser) c p = bitmap c p)"
    by (simp add: composite_over_white_def alpha_source_over_white source_over_clear_white
        source_over_opaque)
  from px getImageData_composited [OF assms] getImageData_fallback [OF assms]
  show ?thesis by blast
qed

theorem C2_witness:
  "isDirty inked_state \<and> canvasRef inked_state = Some inked_canvas \<and>
   fst (getImageData sample_browser True inked_state) =
     Inr (Some (PngDataUrl 20 10 (composite_over_white sample_blend inked_canvas))) \<and>
   composite_over_white sample_blend inked_canvas (15, 8) = white \<and>
   composite_over_white sample_blend inked_canvas (6, 5) = gray_800"
proof -
  have i: "isDirty inked_state" and c: "canvasRef inked_state = Some inked_canvas"
    using inked_state_canvas by simp_all
  have b: "in_bounds inked_canvas (15, 8)" "alpha (bitmap inked_canvas (15, 8)) = 0"
    "in_bounds inked_canvas (6, 5)" "alpha (bitmap inked_canvas (6, 5)) = 255"
    by (simp_all add: inked_canvas_pixels in_bounds_def transparent_def gray_800_def rgba_def)
  have w: "width inked_canvas = 20" "height inked_canvas = 10" "blend sample_browser = sample_blend"
    "bitmap inked_canvas (6, 5) = gray_800"
    by (simp_all add: inked_canvas_pixels sample_browser_def)
  note t = C2_snapshot_white_backed [OF i c sample_browser_has_bitmap(1)]
  have e: "fst (getImageData sample_browser True inked_state) =
      Inr (Some (PngDataUrl (width inked_canvas) (height inked_canvas)
        (composite_over_white (blend sample_browser) inked_canvas)))"
    using t by (rule conjunct1)
  have far: "composite_over_white (blend sample_browser) inked_canvas (15, 8) = white"
    using t [THEN conjunct2, THEN conjunct1, THEN spec, of "(15, 8)"] b(1,2) by blast
  have on: "composite_over_white (blend sample_browser) inked_canvas (6, 5) = bitmap inked_canvas (6, 5)"
    using t [THEN conjunct2, THEN conjunct1, THEN spec, of "(6, 5)"] b(3,4) by blast
  from e far on i c show ?thesis
    unfolding w by simp
qed

text \<open>The claim as stated fails in the fallback branch: after the sample stroke from
  \<open>(5, 5)\<close> to \<open>(8, 5)\<close>, with no context for the temporary canvas, the exported pixel at
  \<open>(15, 8)\<close>, far from the stroke, is transparent.\<close>

theorem C2_counterexample:
  "isDirty inked_state \<and> canvasRef inked_state = Some inked_canvas \<and>
   fst (getImageData sample_browser False inked_state) =
     Inr (Some (PngDataUrl 20 10 (bitmap inked_canvas))) \<and>
   bitmap inked_canvas (15, 8) = transparent \<and>
   alpha transparent = 0 \<and> transparent \<noteq> white"
proof -
  have i: "isDirty inked_state" and c: "canvasRef inked_state = Some inked_canvas"
    using inked_state_canvas by simp_all
  have "fst (getImageData sample_browser False inked_state) =
          Inr (Some (PngDataUrl (width inked_canvas) (height inked_canvas) (bitmap inked_canvas)))"
    using i c sample_browser_has_bitmap(1) by (rule getImageData_fallback)
  with i c show ?thesis
    by (simp add: inked_canvas_pixels transparent_def white_def rgba_def)
qed

text \<open>
  Claim C3, evaluated on the code. The sample session draws a stroke; then the resize
  observer reports a new content box of 5 by 3. The resize clears the bitmap, but the
  callback does not touch \<open>isDirty\<close>: it stays true, and \<open>getImageData\<close> returns an
  image, blank white, where the claim says it returns \<^verbatim>\<open>null\<close>. (The general fact is
  lemma \<open>resize_flags\<close> with \<open>resize_nonempty_blank\<close>.)
\<close>

theorem C3_resize_keeps_isDirty:
  "isDirty inked_state \<and> isDirty resized_state \<and>
   canvasRef resized_state = Some resized_canvas \<and>
   fst (getImageData sample_browser True resized_state) =
     Inr (Some (PngDataUrl 5 3 (composite_over_white sample_blend resized_canvas))) \<and>
   fst (getImageData sample_browser True resized_state) \<noteq> Inr None \<and>
   composite_over_white sample_blend resized_canvas (1, 1) = white"
proof -
  have w: "composite_over_white sample_blend resized_canvas (1, 1) = white"
    by (simp add: composite_over_white_def resized_canvas_def in_bounds_def
        source_over_clear_white transparent_def rgba_def)
  have d: "width resized_canvas = 5" "height resized_canvas = 3" "blend sample_browser = sample_blend"
    by (simp_all add: resized_canvas_def sample_browser_def)
  from getImageData_composited [OF resized_state_canvas [THEN conjunct1]
      resized_state_canvas [THEN conjunct2] sample_browser_has_bitmap(3)]
    resized_state_canvas inked_state_canvas w
  show ?thesis unfolding d by simp
qed

text \<open>
  Claim C4. In every state the component can reach, however much was drawn, after
  \<open>clearCanvas\<close> the flag \<open>isDirty\<close> is false and every pixel of the bitmap is
  transparent, its dimensions unchanged, so \<open>getImageData\<close> called next returns
  \<^verbatim>\<open>null\<close>. Clearing is idempotent, and clearing a blank, clean surface changes nothing.
\<close>

theorem C4_clear_then_no_content:
  fixes s :: "('n::{zero,minus}) canvas_state"
  assumes "reachable browser s"
  shows "\<not> isDirty (clearCanvas s) \<and>
         (\<forall>c. canvasRef (clearCanvas s) = Some c \<longrightarrow> blank c) \<and>
         map_option width (canvasRef (clearCanvas s)) = map_option width (canvasRef s) \<and>
         map_option height (canvasRef (clearCanvas s)) = map_option height (canvasRef s) \<and>
         fst (getImageData browser tempOk (clearCanvas s)) = Inr None \<and>
         clearCanvas (clearCanvas s) = clearCanvas s \<and>
         (\<not> isDirty s \<and> (\<forall>c. canvasRef s = Some c \<longrightarrow> blank c) \<longrightarrow> clearCanvas s = s)"
proof -
  have dims: "map_option width (canvasRef (clearCanvas s)) = map_option width (canvasRef s) \<and>
              map_option height (canvasRef (clearCanvas s)) = map_option height (canvasRef s)"
    by (simp add: clearCanvas_def clearRect_def split: option.splits)
  have noop: "\<not> isDirty s \<and> (\<forall>c. canvasRef s = Some c \<longrightarrow> blank c) \<longrightarrow> clearCanvas s = s"
    by (auto simp: clearCanvas_def clearRect_blank_id split: option.splits)
  have clean: "\<not> isDirty (clearCanvas s) \<and> (\<forall>c. canvasRef (clearCanvas s) = Some c \<longrightarrow> blank c)"
  proof (cases "contextRef s")
    case None
    with assms have "idle s" by (rule reachable_idle)
    with None show ?thesis by (simp add: clearCanvas_no_context idle_def)
  next
    case (Some cx)
    with assms have "canvasRef s \<noteq> None"
      using reachable_detached [of browser s] by auto
    then obtain c where "canvasRef s = Some c" by auto
    with Some show ?thesis by (simp add: clearCanvas_def clearRect_all_blank)
  qed
  then have gone: "fst (getImageData browser tempOk (clearCanvas s)) = Inr None"
    by (simp add: getImageData_clean)
  have idem: "clearCanvas (clearCanvas s) = clearCanvas s"
    by (rule clearCanvas_idem)
  from clean dims gone idem noop show ?thesis by blast
qed

theorem C4_witness:
  "isDirty inked_state \<and> \<not> isDirty (clearCanvas inked_state) \<and>
   map_option bitmap (canvasRef inked_state) \<noteq> map_option bitmap (canvasRef (clearCanvas inked_state)) \<and>
   fst (getImageData sample_browser True (clearCanvas inked_state)) = Inr None \<and>
   clearCanvas (clearCanvas inked_state) = clearCanvas inked_state \<and>
   clearCanvas fresh_state = fresh_state"
proof -
  have f: "reachable sample_browser fresh_state"
    unfolding fresh_state_def by (rule reachable.attached)
  have run_reach: "reachable sample_browser (run sample_browser evs t)"
    if "reachable sample_browser t" for evs t
    using that by (induction evs arbitrary: t) (simp_all add: reachable.step)
  have r: "reachable sample_browser inked_state"
    unfolding inked_state_def using f by (rule run_reach)
  have b: "\<not> isDirty fresh_state \<and> (\<forall>c. canvasRef fresh_state = Some c \<longrightarrow> blank c)"
    by (simp add: fresh_state_def initial_state_def createElement_canvas_def blank_def)
  have ne: "map_option bitmap (canvasRef inked_state) \<noteq> map_option bitmap (canvasRef (clearCanvas inked_state))"
  proof
    assume "map_option bitmap (canvasRef inked_state) = map_option bitmap (canvasRef (clearCanvas inked_state))"
    then have "bitmap inked_canvas =
        bitmap (clearRect 0 0 (width inked_canvas) (height inked_canvas) inked_canvas)"
      by (simp add: inked_state_eq clearCanvas_def)
    then have "bitmap inked_canvas (6, 5) =
        bitmap (clearRect 0 0 (width inked_canvas) (height inked_canvas) inked_canvas) (6, 5)"
      by simp
    then show False
      by (simp add: inked_canvas_pixels clearRect_def in_bounds_def in_rect_def gray_800_def
          transparent_def rgba_def)
  qed
  have d: "isDirty inked_state" by (simp add: inked_state_eq)
  note inked = C4_clear_then_no_content [OF r, where tempOk = True]
  note fresh = C4_clear_then_no_content [OF f, where tempOk = True]
  from fresh b have "clearCanvas fresh_state = fresh_state" by blast
  with inked d ne show ?thesis by blast
qed

text \<open>
  Claim C5. In handwriting mode, whenever \<open>getImageData\<close> returns \<^verbatim>\<open>null\<close>,
  \<open>handleSolve\<close> sets the error message about the empty canvas, ends with no solution
  and not loading, and makes no call to the solver: the log of solver calls is unchanged
  and the outcome does not depend on the solver functions.
\<close>

theorem C5_handleSolve_empty_canvas:
  assumes "inputMode a = Handwriting" and "app_canvasRef a = Some cv"
    and "fst (getImageData browser tempOk cv) = Inr None"
  shows "error (handleSolve browser solveMathProblem solveMathProblemFromText tempOk a) =
           Some ''The canvas is empty. Please write a math problem.'' \<and>
         solverCalls (handleSolve browser solveMathProblem solveMathProblemFromText tempOk a) =
           solverCalls a \<and>
         solution (handleSolve browser solveMathProblem solveMathProblemFromText tempOk a) = None \<and>
         isLoading (handleSolve browser solveMathProblem solveMathProblemFromText tempOk a) = False \<and>
         handleSolve browser solveMathProblem solveMathProblemFromText tempOk a =
           handleSolve browser solveMathProblem' solveMathProblemFromText' tempOk a"
proof -
  obtain cv' where "getImageData browser tempOk cv = (Inr None, cv')"
    using assms(3) by (cases "getImageData browser tempOk cv") simp
  with assms(1,2) show ?thesis
    by (simp add: handleSolve_def Let_def)
qed

theorem C5_witness:
  "inputMode sample_app = Handwriting \<and> app_canvasRef sample_app = Some fresh_state \<and>
   fst (getImageData sample_browser True fresh_state) = Inr None \<and>
   error (handleSolve sample_browser failing_solver failing_solver True sample_app) =
     Some ''The canvas is empty. Please write a math problem.'' \<and>
   solverCalls (handleSolve sample_browser failing_solver failing_solver True sample_app) = []"
  using C5_handleSolve_empty_canvas [where a = sample_app and cv = fresh_state and tempOk = True
      and browser = sample_browser and solveMathProblem = failing_solver
      and solveMathProblemFromText = failing_solver]
  by (simp add: sample_app_def fresh_state_def initial_state_def getImageData_def)

text \<open>
  Claim C6. For a pointer event at the viewport point \<open>(px, py)\<close> on a canvas whose
  bounding box has its origin at \<open>(ox, oy)\<close>, \<open>getCoords\<close> gives
  \<open>(px - ox, py - oy)\<close>, for a mouse event and for a touch event alike, where only the
  first touch counts. With the context there, \<open>startDrawing\<close> starts the new path at
  exactly that point, and a touch-start does what the mouse-down at its first touch does.
\<close>

theorem C6_begin_point_is_client_minus_origin:
  fixes px py ox oy :: "'n::{zero,minus}"
  shows "getCoords (Some c) (ox, oy) (MouseEvent px py) = Inr (px - ox, py - oy) \<and>
         getCoords (Some c) (ox, oy) (TouchEvent ((px, py) # others)) = Inr (px - ox, py - oy) \<and>
         (canvasRef s = Some c \<and> contextRef s = Some cx \<longrightarrow>
            startDrawing (ox, oy) (MouseEvent px py) s =
              Inr (s\<lparr>contextRef := Some (cx\<lparr>path := [([(px - ox, py - oy)], False)]\<rparr>),
                     isDrawing := True, isDirty := True\<rparr>) \<and>
            startDrawing (ox, oy) (TouchEvent ((px, py) # others)) s =
              startDrawing (ox, oy) (MouseEvent px py) s)"
  by (simp add: getCoords_def startDrawing_def beginPath_def moveTo_def)

theorem C6_witness:
  "getCoords (canvasRef inked_state) (20, 30) (MouseEvent 70 90) = Inr (50, 60 :: int) \<and>
   getCoords (canvasRef inked_state) (20, 30) (TouchEvent [(70, 90), (1, 2)]) = Inr (50, 60 :: int) \<and>
   map_option path
     (contextRef (settle (startDrawing (20, 30) (TouchEvent [(70, 90), (1, 2)]) inked_state) inked_state))
     = Some [([(50, 60)], False)]"
proof -
  have c: "canvasRef inked_state = Some inked_canvas"
    and cx: "contextRef inked_state = Some inked_context"
    by (simp_all add: inked_state_eq)
  show ?thesis
    using C6_begin_point_is_client_minus_origin [where c = inked_canvas and ox = 20 and oy = 30
        and px = 70 and py = 90 and others = "[(1, 2)]" and s = inked_state and cx = inked_context]
    by (simp add: c cx settle_def)
qed

text \<open>
  Claim C7. \<open>getImageData\<close> is a pure read: in every state, drawing or not, whatever it
  returns or throws, the component state after the call is the state before it, so the live bitmap,
  \<open>isDirty\<close> and \<open>isDrawing\<close> are unchanged, also after any number \<open>k\<close> of repeated
  calls, and a later call returns what it would have returned without the earlier one.
\<close>

theorem C7_getImageData_pure_read:
  "snd (getImageData browser tempOk s) = s \<and>
   canvasRef (snd (getImageData browser tempOk s)) = canvasRef s \<and>
   isDirty (snd (getImageData browser tempOk s)) = isDirty s \<and>
   isDrawing (snd (getImageData browser tempOk s)) = isDrawing s \<and>
   ((\<lambda>t. snd (getImageData browser tempOk t)) ^^ k) s = s \<and>
   getImageData browser tempOk' (snd (getImageData browser tempOk s)) = getImageData browser tempOk' s"
proof -
  have one: "\<And>t :: 'a canvas_state. snd (getImageData browser tempOk t) = t"
    by (rule getImageData_state)
  have "((\<lambda>t. snd (getImageData browser tempOk t)) ^^ k) s = s"
    by (induction k) (simp_all add: one)
  then show ?thesis by (simp add: one)
qed

text \<open>
  Claim C8. In every state in which drawing is active, the pointer leaving the canvas
  (\<^verbatim>\<open>onMouseLeave\<close>) makes the same transition as the release (\<^verbatim>\<open>onMouseUp\<close>, and
  \<^verbatim>\<open>onTouchEnd\<close>): \<open>stopDrawing\<close>. It closes the current path (the last subpath is
  marked closed), sets \<open>isDrawing\<close> to false and leaves the bitmap and \<open>isDirty\<close>
  alone; a move event after it changes nothing, so the stroke does not continue.
\<close>

theorem C8_leave_is_release:
  fixes s :: "('n::{zero,minus}) canvas_state"
  assumes "isDrawing s"
  shows "dispatch browser MouseLeave s = dispatch browser MouseUp s \<and>
         dispatch browser MouseLeave s = stopDrawing s \<and>
         dispatch browser TouchEnd s = dispatch browser MouseUp s \<and>
         \<not> isDrawing (dispatch browser MouseLeave s) \<and>
         contextRef (dispatch browser MouseLeave s) = map_option closePath (contextRef s) \<and>
         (contextRef s = Some cx \<and> path cx = before @ [(pts, closed)] \<longrightarrow>
            map_option path (contextRef (dispatch browser MouseLeave s)) =
              Some (before @ [(pts, True)] @ (case pts of [] \<Rightarrow> [] | p # _ \<Rightarrow> [([p], False)]))) \<and>
         canvasRef (dispatch browser MouseLeave s) = canvasRef s \<and>
         isDirty (dispatch browser MouseLeave s) = isDirty s \<and>
         dispatch browser (MouseMove rect e) (dispatch browser MouseLeave s) =
           dispatch browser MouseLeave s"
proof -
  have closed: "contextRef s = Some cx \<and> path cx = before @ [(pts, closed)] \<longrightarrow>
      map_option path (contextRef (dispatch browser MouseLeave s)) =
        Some (before @ [(pts, True)] @ (case pts of [] \<Rightarrow> [] | p # _ \<Rightarrow> [([p], False)]))"
    using closePath_closes [of cx before pts closed] by (auto simp: stopDrawing_def)
  have rest: "dispatch browser MouseLeave s = dispatch browser MouseUp s \<and>
         dispatch browser MouseLeave s = stopDrawing s \<and>
         dispatch browser TouchEnd s = dispatch browser MouseUp s \<and>
         \<not> isDrawing (dispatch browser MouseLeave s) \<and>
         contextRef (dispatch browser MouseLeave s) = map_option closePath (contextRef s) \<and>
         canvasRef (dispatch browser MouseLeave s) = canvasRef s \<and>
         isDirty (dispatch browser MouseLeave s) = isDirty s \<and>
         dispatch browser (MouseMove rect e) (dispatch browser MouseLeave s) =
           dispatch browser MouseLeave s"
    by (simp add: stopDrawing_def draw_def settle_def split: option.splits)
  from closed rest show ?thesis by blast
qed

theorem C8_witness:
  "isDrawing drawing_state \<and>
   dispatch sample_browser MouseLeave drawing_state = inked_state \<and>
   dispatch sample_browser MouseUp drawing_state = inked_state \<and>
   dispatch sample_browser (MouseMove (10, 20) (MouseEvent 13 22))
     (dispatch sample_browser MouseLeave drawing_state) = inked_state"
proof -
  have d: "isDrawing drawing_state" by (simp add: drawing_state_eq)
  have "stopDrawing drawing_state = inked_state"
    by (simp add: drawing_state_eq inked_state_eq stopDrawing_def closePath_def
        drawing_context_def inked_context_def)
  with C8_leave_is_release [OF d, where browser = sample_browser and rect = "(10, 20)"
      and e = "MouseEvent 13 22"] d
  show ?thesis by simp
qed

text \<open>
  Claim C9. In every state the component can reach in which the rendering context is
  missing, \<open>clearCanvas\<close>, \<open>startDrawing\<close>, \<open>draw\<close> and \<open>stopDrawing\<close> return normally,
  whatever the event (an empty touch list included), and leave the whole state unchanged.
  And in any state at all, \<open>startDrawing\<close> and \<open>draw\<close> do not throw on an event that
  carries a contact point; \<open>clearCanvas\<close> and \<open>stopDrawing\<close> cannot throw.
\<close>

theorem C9_missing_context_ignored:
  fixes s t :: "('n::{zero,minus}) canvas_state"
  assumes "reachable browser s" and "contextRef s = None"
  shows "clearCanvas s = s \<and>
         startDrawing rect e s = Inr s \<and>
         draw browser rect e s = Inr s \<and>
         stopDrawing s = s \<and>
         dispatch browser ClearCanvasCall s = s \<and>
         dispatch browser (MouseDown rect e) s = s \<and>
         dispatch browser (TouchStart rect e) s = s \<and>
         dispatch browser (MouseMove rect e) s = s \<and>
         dispatch browser (TouchMove rect e) s = s \<and>
         dispatch browser MouseUp s = s \<and>
         dispatch browser MouseLeave s = s \<and>
         dispatch browser TouchEnd s = s \<and>
         \<not> isl (startDrawing rect (MouseEvent x y) t) \<and>
         \<not> isl (startDrawing rect (TouchEvent (p # ps)) t) \<and>
         \<not> isl (draw browser rect (MouseEvent x y) t) \<and>
         \<not> isl (draw browser rect (TouchEvent (p # ps)) t)"
proof -
  have "idle s" using assms by (rule reachable_idle)
  then have "\<not> isDrawing s" by (simp add: idle_def)
  with assms(2) have ignored: "clearCanvas s = s \<and>
         startDrawing rect e s = Inr s \<and>
         draw browser rect e s = Inr s \<and>
         stopDrawing s = s"
    by (simp add: clearCanvas_no_context startDrawing_no_context draw_no_context
        stopDrawing_no_context)
  have total: "\<not> isl (startDrawing rect (MouseEvent x y) t) \<and>
         \<not> isl (startDrawing rect (TouchEvent (p # ps)) t) \<and>
         \<not> isl (draw browser rect (MouseEvent x y) t) \<and>
         \<not> isl (draw browser rect (TouchEvent (p # ps)) t)"
    by (simp add: startDrawing_def draw_def getCoords_def split: option.splits)
  from ignored total show ?thesis by (simp add: settle_def)
qed

theorem C9_witness:
  "contextRef no_context_state = None \<and>
   clearCanvas no_context_state = no_context_state \<and>
   startDrawing (10, 20) (TouchEvent []) no_context_state = Inr no_context_state \<and>
   draw sample_browser (10, 20) (MouseEvent 11 21) no_context_state = Inr no_context_state \<and>
   stopDrawing no_context_state = no_context_state"
proof -
  have "reachable sample_browser (fresh_state)"
    unfolding fresh_state_def by (rule reachable.attached)
  then have "reachable sample_browser (dispatch sample_browser (Mounted True False False) fresh_state)"
    by (rule reachable.step)
  then have "reachable sample_browser (dispatch sample_browser (Resized [(4, 3)] False False)
      (dispatch sample_browser (Mounted True False False) fresh_state))"
    by (rule reachable.step)
  then have r: "reachable sample_browser no_context_state"
    by (simp add: no_context_state_def)
  have n: "contextRef no_context_state = None"
    by (simp add: no_context_state_def fresh_state_def model_defs)
  from C9_missing_context_ignored [OF r n, where rect = "(10, 20)" and e = "TouchEvent []"]
    C9_missing_context_ignored [OF r n, where rect = "(10, 20)" and e = "MouseEvent 11 21"] n
  show ?thesis by simp
qed

text \<open>
  Claim C10, amended. On a canvas with its rendering context, a begin event that carries
  a contact point followed by an end event, with no move between (a tap, by mouse or by
  touch), sets \<open>isDirty\<close> and leaves the bitmap as it was: no stroke is rendered. So, where
  the canvas has a bitmap (width and height positive, and of a size the browser backs),
  \<open>getImageData\<close> called next returns a non-null image with no stroke pixels added: the
  untouched bitmap composited over opaque white when the temporary canvas gives a context
  (blank white, if the surface was blank), and the untouched live canvas itself in the
  fallback branch.
\<close>

theorem C10_tap_marks_dirty:
  fixes s :: "('n::{zero,minus}) canvas_state"
  assumes "canvasRef s = Some c" and "contextRef s = Some cx"
    and "getCoords (Some c) rect e = Inr xy"
  shows "isDirty (run browser [MouseDown rect e, MouseUp] s) \<and>
         \<not> isDrawing (run browser [MouseDown rect e, MouseUp] s) \<and>
         canvasRef (run browser [MouseDown rect e, MouseUp] s) = Some c \<and>
         run browser [TouchStart rect e, TouchEnd] s = run browser [MouseDown rect e, MouseUp] s \<and>
         (has_bitmap browser c \<longrightarrow>
            fst (getImageData browser True (run browser [MouseDown rect e, MouseUp] s)) =
              Inr (Some (PngDataUrl (width c) (height c) (composite_over_white (blend browser) c))) \<and>
            fst (getImageData browser False (run browser [MouseDown rect e, MouseUp] s)) =
              Inr (Some (PngDataUrl (width c) (height c) (bitmap c)))) \<and>
         (blank c \<longrightarrow> (\<forall>p. in_bounds c p \<longrightarrow> composite_over_white (blend browser) c p = white))"
proof -
  let ?s' = "run browser [MouseDown rect e, MouseUp] s"
  have s': "?s' = s\<lparr>contextRef := Some (closePath (moveTo xy (beginPath cx))),
                     isDrawing := False, isDirty := True\<rparr>"
    using assms by (simp add: settle_def startDrawing_def stopDrawing_def)
  have touch: "run browser [TouchStart rect e, TouchEnd] s = ?s'"
    by simp
  have d: "isDirty ?s'" and c: "canvasRef ?s' = Some c" and n: "\<not> isDrawing ?s'"
    using assms(1) unfolding s' by simp_all
  have w: "blank c \<longrightarrow> (\<forall>p. in_bounds c p \<longrightarrow> composite_over_white (blend browser) c p = white)"
    by (simp add: blank_def composite_over_white_def source_over_clear_white transparent_def rgba_def)
  have x: "has_bitmap browser c \<longrightarrow>
            fst (getImageData browser True ?s') =
              Inr (Some (PngDataUrl (width c) (height c) (composite_over_white (blend browser) c))) \<and>
            fst (getImageData browser False ?s') =
              Inr (Some (PngDataUrl (width c) (height c) (bitmap c)))"
    using getImageData_composited [OF d c] getImageData_fallback [OF d c] by blast
  from d c n touch w x show ?thesis by blast
qed

theorem C10_witness:
  "fst (getImageData sample_browser True sized_state) = Inr None \<and>
   isDirty tapped_state \<and>
   canvasRef tapped_state = Some sized_canvas \<and>
   fst (getImageData sample_browser True tapped_state) =
     Inr (Some (PngDataUrl 4 3 (composite_over_white sample_blend sized_canvas))) \<and>
   composite_over_white sample_blend sized_canvas (1, 1) = white"
proof -
  have c: "canvasRef sized_state = Some sized_canvas"
    and cx: "contextRef sized_state = Some \<lparr>lineCap = Round, lineJoin = RoundJoin,
               strokeStyle = gray_800, lineWidth = 4, path = []\<rparr>"
    by (simp_all add: sized_state_eq)
  have g: "getCoords (Some sized_canvas) (10, 20) (MouseEvent 11 21) = Inr (1, 1 :: int)"
    by (simp add: getCoords_def)
  have b: "blank sized_canvas" "in_bounds sized_canvas (1, 1)"
    by (simp_all add: blank_def sized_canvas_def in_bounds_def)
  have w: "width sized_canvas = 4" "height sized_canvas = 3" "blend sample_browser = sample_blend"
    by (simp_all add: sized_canvas_def sample_browser_def)
  have n: "fst (getImageData sample_browser True sized_state) = Inr None"
    by (simp add: sized_state_eq getImageData_def)
  from C10_tap_marks_dirty [OF c cx g, where browser = sample_browser]
    sample_browser_has_bitmap(2) b n
  show ?thesis unfolding w tapped_state_def by blast
qed

text \<open>The claim as stated fails in the fallback branch: after a tap on the blank 4 by 3
  canvas, with no context for the temporary canvas, the image returned is not white.\<close>

theorem C10_counterexample:
  "isDirty tapped_state \<and> canvasRef tapped_state = Some sized_canvas \<and>
   fst (getImageData sample_browser False tapped_state) =
     Inr (Some (PngDataUrl 4 3 (bitmap sized_canvas))) \<and>
   bitmap sized_canvas (0, 0) = transparent \<and>
   transparent \<noteq> white"
proof -
  have i: "isDirty tapped_state" and c: "canvasRef tapped_state = Some sized_canvas"
    using tapped_state_canvas by simp_all
  have "fst (getImageData sample_browser False tapped_state) =
          Inr (Some (PngDataUrl (width sized_canvas) (height sized_canvas) (bitmap sized_canvas)))"
    using i c sample_browser_has_bitmap(2) by (rule getImageData_fallback)
  with i c show ?thesis
    by (simp add: sized_canvas_def transparent_def white_def rgba_def)
qed

end
